theory Spec2Isabelle
  imports Main "HOL-Library.AList"
begin

section \<open>Strings\<close>

text \<open>
  Python strings are modelled as \<^typ>\<open>string\<close>; a character stands for a code point
  below 256. On that range the whitespace of \<^verbatim>\<open>\s\<close> and of \<^verbatim>\<open>str.strip()\<close> is
  TAB..CR (9..13), FS..US (28..31), the space (32), NEL (133) and NBSP (160); the decimal
  digits of \<^verbatim>\<open>\d\<close> are 0..9.
\<close>

definition is_space :: "char \<Rightarrow> bool" where
  "is_space c = (of_char c \<in> {9, 10, 11, 12, 13, 28, 29, 30, 31, 32, 133, 160 :: nat})"

definition is_digit :: "char \<Rightarrow> bool" where
  "is_digit c = (c \<in> set ''0123456789'')"

text \<open>\<^verbatim>\<open>s.strip()\<close>: whitespace is removed at both ends.\<close>

definition strip :: "string \<Rightarrow> string" where
  "strip s = rev (dropWhile is_space (rev (dropWhile is_space s)))"

text \<open>
  \<^verbatim>\<open>re.sub(r"\s+", " ", s)\<close>: every maximal run of whitespace becomes one space.
\<close>

fun collapse_ws :: "string \<Rightarrow> string" where
  "collapse_ws [] = []"
| "collapse_ws [c] = (if is_space c then '' '' else [c])"
| "collapse_ws (c # d # s) =
     (if is_space c then (if is_space d then collapse_ws (d # s) else CHR '' '' # collapse_ws (d # s))
      else c # collapse_ws (d # s))"

text \<open>\<^verbatim>\<open>x or ''\<close> for an optional string \<^verbatim>\<open>x\<close>.\<close>

definition or_empty :: "string option \<Rightarrow> string" where
  "or_empty x = (case x of None \<Rightarrow> [] | Some s \<Rightarrow> s)"

text \<open>
  \<^verbatim>\<open>x or d\<close> where \<^verbatim>\<open>x\<close> is \<^verbatim>\<open>None\<close> or a string: \<^verbatim>\<open>None\<close> and the
  empty string are falsy, so the default is taken for both.
\<close>

definition or_else :: "string option \<Rightarrow> string \<Rightarrow> string" where
  "or_else x d = (case x of None \<Rightarrow> d | Some s \<Rightarrow> if s = [] then d else s)"

section \<open>Elements\<close>

text \<open>
  An \<^verbatim>\<open>xml.etree.ElementTree.Element\<close>: its tag (namespace-qualified in Clark notation,
  \<^verbatim>\<open>{uri}local\<close>), its attribute dictionary, its text, its tail (the text that follows
  the element's end tag) and its children.
\<close>

datatype element =
  Element (tag: string) (attrib: "(string \<times> string) list")
    (node_text: "string option") (node_tail: "string option") (children: "element list")

text \<open>\<^verbatim>\<open>node.get(key)\<close>\<close>

definition get_attr :: "element \<Rightarrow> string \<Rightarrow> string option" where
  "get_attr e k = map_of (attrib e) k"

definition TEI_NS :: string where
  "TEI_NS = ''http://www.tei-c.org/ns/1.0''"

definition XML_ID :: string where
  "XML_ID = ''{http://www.w3.org/XML/1998/namespace}id''"

text \<open>The tag that the path step \<^verbatim>\<open>tei:name\<close> selects.\<close>

definition tei :: "string \<Rightarrow> string" where
  "tei name = ''{'' @ TEI_NS @ ''}'' @ name"

text \<open>
  \<^verbatim>\<open>t.rsplit('}', 1)[-1] if '}' in t else t\<close>: the local name, what follows the last
  closing brace.
\<close>

definition ns_tag :: "string \<Rightarrow> string" where
  "ns_tag t = (if CHR ''}'' \<in> set t then rev (takeWhile (\<lambda>c. c \<noteq> CHR ''}'') (rev t)) else t)"

section \<open>The markup renderer (helpers.py, get_text_with_markup)\<close>

text \<open>
  Each branch appends the rendering of the node and then the node's tail when the tail is
  truthy; appending \<^term>\<open>or_empty (node_tail n)\<close> is the same string. The gap branch
  computes the children's rendering and drops it.
\<close>

fun get_text_with_markup :: "element \<Rightarrow> string" where
  "get_text_with_markup (Element t a x y cs) =
     (let tg = ns_tag t; inner = concat (map get_text_with_markup cs) in
      if tg = ''ex'' then ''<em>'' @ or_empty x @ inner @ ''</em>'' @ or_empty y
      else if tg \<in> {''add'', ''supplied''} then ''['' @ or_empty x @ inner @ '']'' @ or_empty y
      else if tg \<in> {''del'', ''surplus''} then ''('' @ or_empty x @ inner @ '')'' @ or_empty y
      else if tg = ''gap'' then '' [...]'' @ or_empty y
      else or_empty x @ inner @ or_empty y)"

section \<open>Nodes and document order\<close>

text \<open>
  The code compares elements by object identity (\<^verbatim>\<open>list.index\<close>, dictionary keys). An
  object of a parsed document is identified by its path from the root: the positions of
  the children taken on the way down. A node is an element together with its path.
\<close>

type_synonym path = "nat list"
type_synonym node = "path \<times> element"

text \<open>\<^verbatim>\<open>Element.iter()\<close>: the element, then the \<^verbatim>\<open>iter()\<close> of each child in turn.\<close>

fun iter_at :: "path \<Rightarrow> element \<Rightarrow> node list"
  and iter_children :: "path \<Rightarrow> nat \<Rightarrow> element list \<Rightarrow> node list" where
  "iter_at p (Element t a x y cs) = (p, Element t a x y cs) # iter_children p 0 cs"
| "iter_children p i [] = []"
| "iter_children p i (c # cs) = iter_at (p @ [i]) c @ iter_children p (Suc i) cs"

definition iter :: "node \<Rightarrow> node list" where
  "iter n = iter_at (fst n) (snd n)"

text \<open>\<^verbatim>\<open>for c in p\<close>: the children of a node, as nodes.\<close>

definition child_nodes :: "node \<Rightarrow> node list" where
  "child_nodes n = map (\<lambda>(i, c). (fst n @ [i], c)) (enumerate 0 (children (snd n)))"

text \<open>
  \<^verbatim>\<open>n.findall(".//t")\<close> and \<^verbatim>\<open>n.find(".//t")\<close>: the elements of \<^verbatim>\<open>n.iter()\<close> with
  tag \<^verbatim>\<open>t\<close> other than \<^verbatim>\<open>n\<close> itself, in document order; and the first of them.
\<close>

definition findall_desc :: "node \<Rightarrow> string \<Rightarrow> node list" where
  "findall_desc n t = filter (\<lambda>m. tag (snd m) = t) (tl (iter n))"

definition find_desc :: "node \<Rightarrow> string \<Rightarrow> node option" where
  "find_desc n t = (case findall_desc n t of [] \<Rightarrow> None | m # _ \<Rightarrow> Some m)"

text \<open>\<^verbatim>\<open>n.find("t")\<close>: the first child with tag \<^verbatim>\<open>t\<close>.\<close>

definition find_child :: "node \<Rightarrow> string \<Rightarrow> node option" where
  "find_child n t = find (\<lambda>m. tag (snd m) = t) (child_nodes n)"

text \<open>\<^verbatim>\<open>nodes.index(l)\<close>; \<^const>\<open>None\<close> stands for the ValueError.\<close>

fun index_of :: "node list \<Rightarrow> node \<Rightarrow> nat option" where
  "index_of [] l = None"
| "index_of (n # ns) l = (if fst n = fst l then Some 0 else map_option Suc (index_of ns l))"

text \<open>\<^verbatim>\<open>"".join(e.itertext())\<close>\<close>

fun itertext :: "element \<Rightarrow> string" where
  "itertext (Element t a x y cs) =
     or_empty x @ concat (map (\<lambda>c. itertext c @ or_empty (node_tail c)) cs)"

section \<open>Line records\<close>

record line =
  line_no :: int
  "text" :: string
  lg :: string
  l_id :: string
  folio :: string
  col :: string
  speaker :: string

text \<open>\<^verbatim>\<open>str(i)\<close> for an integer.\<close>

definition digit_char :: "nat \<Rightarrow> char" where
  "digit_char d = ''0123456789'' ! d"

fun str_nat :: "nat \<Rightarrow> string" where
  "str_nat n = (if n < 10 then [digit_char n] else str_nat (n div 10) @ [digit_char (n mod 10)])"

declare str_nat.simps [simp del]

definition py_str :: "int \<Rightarrow> string" where
  "py_str i = (if i < 0 then CHR ''-'' # str_nat (nat (- i)) else str_nat (nat i))"

section \<open>Line extraction (helpers.py and process\_div.py, extract\_lines\_from\_xml)\<close>

text \<open>
  \<^verbatim>\<open>doc_nodes\<close>: the nodes of the first \<^verbatim>\<open>tei:div\<close> below the root, or of the whole
  document when there is none.
\<close>

definition doc_nodes :: "element \<Rightarrow> node list" where
  "doc_nodes root =
     (case find_desc ([], root) (tei ''div'') of
        None \<Rightarrow> iter ([], root)
      | Some div_elem \<Rightarrow> iter div_elem)"

text \<open>
  \<^verbatim>\<open>parent_map = {c: p for p in doc_nodes for c in p}\<close>, keyed by the child's identity;
  a later entry of a dictionary comprehension replaces an earlier one.
\<close>

definition parent_map :: "node list \<Rightarrow> (path \<rightharpoonup> node)" where
  "parent_map dn = map_of (rev (concat (map (\<lambda>p. map (\<lambda>c. (fst c, p)) (child_nodes p)) dn)))"

definition GROUP_TAGS :: "string set" where
  "GROUP_TAGS = {''lg'', ''p'', ''sp''}"

lemma parent_map_shorter:
  assumes "parent_map dn k = Some parent"
  shows "length (fst parent) < length k"
proof -
  from assms have "(k, parent) \<in> set (concat (map (\<lambda>p. map (\<lambda>c. (fst c, p)) (child_nodes p)) dn))"
    unfolding parent_map_def by (auto dest: map_of_SomeD)
  then obtain c where "c \<in> set (child_nodes parent)" "k = fst c"
    by auto
  then show ?thesis
    by (auto simp: child_nodes_def)
qed

text \<open>
  \<^verbatim>\<open>find_group_for_node\<close>: the walk up the parent map. It ends because a parent's path is
  shorter than its child's.
\<close>

function find_group_for_node :: "node list \<Rightarrow> node \<Rightarrow> node option" where
  "find_group_for_node dn cur =
     (case parent_map dn (fst cur) of
        None \<Rightarrow> None
      | Some parent \<Rightarrow>
          if ns_tag (tag (snd parent)) \<in> GROUP_TAGS then Some parent
          else find_group_for_node dn parent)"
  by pat_completeness auto
termination
  by (relation "measure (\<lambda>(dn, cur). length (fst cur))") (auto dest: parent_map_shorter)

declare find_group_for_node.simps [simp del]

text \<open>
  The group block of the loop body: the group number of the line, and the updated
  \<^verbatim>\<open>ancestor_group_map\<close> and \<^verbatim>\<open>next_group_id\<close>.
\<close>

definition resolve_group ::
  "node list \<Rightarrow> (path \<rightharpoonup> int) \<Rightarrow> int \<Rightarrow> node \<Rightarrow> int \<times> (path \<rightharpoonup> int) \<times> int" where
  "resolve_group dn ancestor_group_map next_group_id l =
     (case find_group_for_node dn l of
        Some ancestor \<Rightarrow>
          (case ancestor_group_map (fst ancestor) of
             None \<Rightarrow> (next_group_id + 1,
                       ancestor_group_map(fst ancestor \<mapsto> next_group_id + 1),
                       next_group_id + 1)
           | Some g \<Rightarrow> (g, ancestor_group_map, next_group_id))
      | None \<Rightarrow> (0, ancestor_group_map, next_group_id))"

definition is_pb :: "node \<Rightarrow> bool" where
  "is_pb prev = (ns_tag (tag (snd prev)) = ''pb'')"

definition is_col_marker :: "node \<Rightarrow> bool" where
  "is_col_marker prev =
     (ns_tag (tag (snd prev)) = ''cb'' \<or>
      (ns_tag (tag (snd prev)) = ''milestone'' \<and> get_attr (snd prev) ''unit'' = Some ''column''))"

definition is_sp :: "node \<Rightarrow> bool" where
  "is_sp prev = (ns_tag (tag (snd prev)) = ''sp'')"

text \<open>\<^verbatim>\<open>prev.get('n') or prev.get(xml_ns) or dflt\<close>\<close>

definition marker_value :: "node \<Rightarrow> string \<Rightarrow> string" where
  "marker_value prev dflt =
     or_else (get_attr (snd prev) ''n'') (or_else (get_attr (snd prev) XML_ID) dflt)"

text \<open>
  The folio, column and speaker blocks: the backward scan over
  \<^verbatim>\<open>reversed(doc_nodes[:idx])\<close> that stops at the first match; the seed when the line is
  not in \<^verbatim>\<open>doc_nodes\<close> (ValueError) or nothing matches.
\<close>

definition resolve_folio :: "node list \<Rightarrow> string \<Rightarrow> node \<Rightarrow> string" where
  "resolve_folio dn initial_folio l =
     (case index_of dn l of
        None \<Rightarrow> initial_folio
      | Some idx \<Rightarrow>
          (case find is_pb (rev (take idx dn)) of
             None \<Rightarrow> initial_folio
           | Some prev \<Rightarrow> marker_value prev initial_folio))"

definition resolve_col :: "node list \<Rightarrow> string \<Rightarrow> node \<Rightarrow> string" where
  "resolve_col dn initial_col l =
     (case index_of dn l of
        None \<Rightarrow> initial_col
      | Some idx \<Rightarrow>
          (case find is_col_marker (rev (take idx dn)) of
             None \<Rightarrow> initial_col
           | Some prev \<Rightarrow> marker_value prev initial_col))"

text \<open>helpers.py: the speaker is the \<^verbatim>\<open>who\<close> attribute without a leading sigil.\<close>

definition who_of :: "node \<Rightarrow> string" where
  "who_of prev =
     (let speaker = (case get_attr (snd prev) ''who'' of None \<Rightarrow> [] | Some w \<Rightarrow> w)
      in if take 1 speaker = ''#'' then drop 1 speaker else speaker)"

definition resolve_speaker :: "node list \<Rightarrow> node \<Rightarrow> string" where
  "resolve_speaker dn l =
     (case index_of dn l of
        None \<Rightarrow> []
      | Some idx \<Rightarrow>
          (case find is_sp (rev (take idx dn)) of
             None \<Rightarrow> []
           | Some prev \<Rightarrow> who_of prev))"

text \<open>process\_div.py: the speaker is the stripped text of the first speaker child.\<close>

definition pd_resolve_speaker :: "node list \<Rightarrow> node \<Rightarrow> string" where
  "pd_resolve_speaker dn l =
     (case index_of dn l of
        None \<Rightarrow> []
      | Some idx \<Rightarrow>
          (case find is_sp (rev (take idx dn)) of
             None \<Rightarrow> []
           | Some prev \<Rightarrow>
               (case find_child prev (tei ''speaker'') of
                  None \<Rightarrow> []
                | Some speaker_elem \<Rightarrow> strip (itertext (snd speaker_elem)))))"

text \<open>helpers.py: the text of a line is its rendering, whitespace-normalised.\<close>

definition line_text :: "node \<Rightarrow> string" where
  "line_text l = strip (collapse_ws (get_text_with_markup (snd l)))"

text \<open>
  \<^verbatim>\<open>re.sub(r"\s*A\s*", "A", s)\<close> for a character \<^verbatim>\<open>A\<close> that is not whitespace: at
  each position, a run of whitespace followed by \<^verbatim>\<open>A\<close> and the run of whitespace after
  it are replaced by \<^verbatim>\<open>A\<close>; otherwise the character is kept.
\<close>

function sub_around :: "char \<Rightarrow> string \<Rightarrow> string" where
  "sub_around a [] = []"
| "sub_around a (c # s) =
     (case dropWhile is_space (c # s) of
        [] \<Rightarrow> c # sub_around a s
      | d # r \<Rightarrow> if d = a then a # sub_around a (dropWhile is_space r) else c # sub_around a s)"
  by pat_completeness auto
termination
proof (relation "measure (\<lambda>(a, s). length s)", goal_cases)
  case 1
  show ?case by simp
next
  case (2 a c s)
  show ?case by simp
next
  case (3 a c s d r)
  have "length (dropWhile is_space r) \<le> length r"
    by (rule length_dropWhile_le)
  moreover have "length (d # r) \<le> length (c # s)"
    unfolding 3(1)[symmetric] by (rule length_dropWhile_le)
  ultimately show ?case by simp
next
  case (4 a c s d r)
  show ?case by simp
qed

declare sub_around.simps [simp del]

text \<open>
  process\_div.py: the text of a line is its \<^verbatim>\<open>itertext()\<close>, whitespace-normalised, with
  the whitespace around apostrophes removed. The typographic apostrophe (U+2019) of the
  first substitution is no character of the model's strings, so that substitution
  changes nothing here; the second is the one for the ASCII apostrophe.
\<close>

definition pd_line_text :: "node \<Rightarrow> string" where
  "pd_line_text l = sub_around (CHR 0x27) (strip (collapse_ws (itertext (snd l))))"

text \<open>
  The loop over the line elements. Its state is \<^verbatim>\<open>line_counter\<close>,
  \<^verbatim>\<open>ancestor_group_map\<close>, \<^verbatim>\<open>next_group_id\<close> and \<^verbatim>\<open>lines\<close>. The two modules
  differ in the text and in the speaker of a record only, which are parameters here.
\<close>

fun lines_loop ::
  "(node \<Rightarrow> string) \<Rightarrow> (node list \<Rightarrow> node \<Rightarrow> string) \<Rightarrow> node list \<Rightarrow> string \<Rightarrow> string \<Rightarrow>
   node list \<Rightarrow> int \<Rightarrow> (path \<rightharpoonup> int) \<Rightarrow> int \<Rightarrow> line list \<Rightarrow> line list" where
  "lines_loop txt spk dn initial_folio initial_col [] line_counter agm next_group_id lines = lines"
| "lines_loop txt spk dn initial_folio initial_col (l # ls) line_counter agm next_group_id lines =
     (case resolve_group dn agm next_group_id l of
        (lg_num, agm', next_group_id') \<Rightarrow>
          lines_loop txt spk dn initial_folio initial_col ls (line_counter + 1) agm' next_group_id'
            (lines @
             [\<lparr>line_no = line_counter + 1,
               text = txt l,
               lg = (if lg_num > 0 then py_str lg_num else []),
               l_id = or_else (get_attr (snd l) XML_ID) (or_else (get_attr (snd l) ''id'') []),
               folio = resolve_folio dn initial_folio l,
               col = resolve_col dn initial_col l,
               speaker = spk dn l\<rparr>]))"

text \<open>
  helpers.py, \<^verbatim>\<open>extract_lines_from_xml\<close>, on the parsed document: \<open>root\<close> is what
  \<^verbatim>\<open>ET.fromstring(xml_str)\<close> returns.
\<close>

definition extract_lines_from_xml :: "element \<Rightarrow> string \<Rightarrow> string \<Rightarrow> line list" where
  "extract_lines_from_xml root initial_folio initial_col =
     lines_loop line_text resolve_speaker (doc_nodes root) initial_folio initial_col
       (findall_desc ([], root) (tei ''l'')) 0 Map.empty 0 []"

text \<open>process\_div.py, \<^verbatim>\<open>extract_lines_from_xml\<close>, on the parsed document.\<close>

definition pd_extract_lines_from_xml :: "element \<Rightarrow> string \<Rightarrow> string \<Rightarrow> line list" where
  "pd_extract_lines_from_xml root initial_folio initial_col =
     lines_loop pd_line_text pd_resolve_speaker (doc_nodes root) initial_folio initial_col
       (findall_desc ([], root) (tei ''l'')) 0 Map.empty 0 []"

section \<open>The index sort key (helpers.py, simple\_folio\_sort\_key)\<close>

text \<open>\<^verbatim>\<open>int(s)\<close> for a string of decimal digits.\<close>

definition int_of_digits :: "string \<Rightarrow> int" where
  "int_of_digits ds = fold (\<lambda>c v. 10 * v + (int (of_char c) - 48)) ds 0"

text \<open>
  \<^verbatim>\<open>re.match(r'(\d+)', fol_range)\<close> matches at the start of the string only: the group
  is the run of digits the string begins with, and there is no match when that run is
  empty.
\<close>

definition simple_folio_sort_key :: "string \<Rightarrow> int" where
  "simple_folio_sort_key fol_range =
     (if fol_range = [] then 999999
      else (case takeWhile is_digit fol_range of
              [] \<Rightarrow> 999999
            | d # ds \<Rightarrow> int_of_digits (d # ds)))"

section \<open>Loading the metadata table (helpers.py, load\_metadata)\<close>
















section \<open>Seed extraction (extract\_divs.py and helpers.py, get\_folio\_and\_col\_at\_div)\<close>

text \<open>
  \<^verbatim>\<open>re.search(r'xml:id\s*=\s*"([^"]+)"', s)\<close>: the match at a given position, and the
  leftmost match. The group is the run of characters other than the double quote after
  the opening quote; it must not be empty and a double quote must follow it.
\<close>

definition dquote :: char where
  "dquote = CHR 0x22"

definition match_xml_id :: "string \<Rightarrow> string option" where
  "match_xml_id s =
     (if take 6 s = ''xml:id'' then
        (case dropWhile is_space (drop 6 s) of
           e # r2 \<Rightarrow>
             if e = CHR ''='' then
               (case dropWhile is_space r2 of
                  q # r4 \<Rightarrow>
                    if q = dquote \<and> takeWhile (\<lambda>ch. ch \<noteq> dquote) r4 \<noteq> [] \<and>
                       dropWhile (\<lambda>ch. ch \<noteq> dquote) r4 \<noteq> []
                    then Some (takeWhile (\<lambda>ch. ch \<noteq> dquote) r4)
                    else None
                | [] \<Rightarrow> None)
             else None
         | [] \<Rightarrow> None)
      else None)"

fun search_xml_id :: "string \<Rightarrow> string option" where
  "search_xml_id [] = match_xml_id []"
| "search_xml_id (ch # s) =
     (case match_xml_id (ch # s) of Some v \<Rightarrow> Some v | None \<Rightarrow> search_xml_id s)"

text \<open>
  The first part of the function, which \<^verbatim>\<open>get_preceding_pb_element\<close> repeats: the
  identifier is read from the serialised div, the div is looked up in the source document,
  and the nodes before it are taken in reverse document order
  (\<^verbatim>\<open>reversed(all_nodes[:div_idx])\<close>). \<^const>\<open>None\<close> stands for the three early returns.
\<close>

definition nodes_before_div :: "string \<Rightarrow> element \<Rightarrow> node list option" where
  "nodes_before_div div_node_xml source_root =
     (case search_xml_id div_node_xml of
        None \<Rightarrow> None
      | Some div_id \<Rightarrow>
          (case find (\<lambda>elem. tag (snd elem) = tei ''div'' \<and> get_attr (snd elem) XML_ID = Some div_id)
                  (iter ([], source_root)) of
             None \<Rightarrow> None
           | Some div_elem_in_source \<Rightarrow>
               (case index_of (iter ([], source_root)) div_elem_in_source of
                  None \<Rightarrow> None
                | Some div_idx \<Rightarrow> Some (rev (take div_idx (iter ([], source_root)))))))"

definition is_tei_pb :: "node \<Rightarrow> bool" where
  "is_tei_pb prev_node = (tag (snd prev_node) = tei ''pb'')"

definition is_tei_col :: "node \<Rightarrow> bool" where
  "is_tei_col prev_node =
     (tag (snd prev_node) = tei ''cb'' \<or>
      (tag (snd prev_node) = tei ''milestone'' \<and> get_attr (snd prev_node) ''unit'' = Some ''column''))"

text \<open>
  The joint backward scan; \<open>cur_folio\<close> and \<open>cur_col\<close> are the loop's variables
  \<^verbatim>\<open>folio\<close> and \<^verbatim>\<open>col\<close>. A folio or column that is still empty counts as not
  found (\<^verbatim>\<open>not folio\<close>, \<^verbatim>\<open>not col\<close>); the loop breaks once both are non-empty.
\<close>

fun scan_back :: "node list \<Rightarrow> string \<Rightarrow> string \<Rightarrow> string \<times> string" where
  "scan_back [] cur_folio cur_col = (cur_folio, cur_col)"
| "scan_back (prev_node # rest) cur_folio cur_col =
     (let cur_folio' = (if tag (snd prev_node) = tei ''pb'' \<and> cur_folio = []
                    then marker_value prev_node [] else cur_folio);
          cur_col' = (if cur_col = [] then
                    (if tag (snd prev_node) = tei ''cb'' then marker_value prev_node []
                     else if tag (snd prev_node) = tei ''milestone'' \<and>
                             get_attr (snd prev_node) ''unit'' = Some ''column''
                     then marker_value prev_node []
                     else cur_col)
                  else cur_col)
      in if cur_folio' \<noteq> [] \<and> cur_col' \<noteq> [] then (cur_folio', cur_col') else scan_back rest cur_folio' cur_col')"

definition get_folio_and_col_at_div :: "string \<Rightarrow> element \<Rightarrow> string \<times> string" where
  "get_folio_and_col_at_div div_node_xml source_root =
     (case nodes_before_div div_node_xml source_root of
        None \<Rightarrow> ([], [])
      | Some prevs \<Rightarrow> scan_back prevs [] [])"

text \<open>
  \<^verbatim>\<open>get_preceding_pb_element\<close>, which the drivers call right after
  \<^verbatim>\<open>get_folio_and_col_at_div\<close> on the same arguments: the same first part, then the
  first page-break of the backward scan, whatever its attributes.
\<close>

definition get_preceding_pb_element :: "string \<Rightarrow> element \<Rightarrow> node option" where
  "get_preceding_pb_element div_node_xml source_root =
     (case nodes_before_div div_node_xml source_root of
        None \<Rightarrow> None
      | Some prevs \<Rightarrow> find is_tei_pb prevs)"

text \<open>
  The independent scan, in the words of the design (folio and column are searched
  independently and each stops independently): one backward pass for one kind of marker,
  which stops at the first node that matches and returns its effective value, the empty
  string when nothing matches.
\<close>

definition independent_scan :: "(node \<Rightarrow> bool) \<Rightarrow> node list \<Rightarrow> string" where
  "independent_scan is_match prevs =
     (case find is_match prevs of None \<Rightarrow> [] | Some m \<Rightarrow> marker_value m [])"

section \<open>Documents and tables used as concrete inputs\<close>

text \<open>
  The fragment of the scenario as it is written, with no namespace declaration: the
  parser gives its elements the bare tags \<^verbatim>\<open>div\<close>, \<^verbatim>\<open>pb\<close>, \<^verbatim>\<open>lg\<close>, \<^verbatim>\<open>l\<close>, and
  the attribute \<^verbatim>\<open>xml:id\<close> its qualified name.
\<close>

definition scenario_fragment_plain :: element where
  "scenario_fragment_plain =
     Element ''div'' [] None None
       [Element ''pb'' [(''n'', ''1r'')] None None [],
        Element ''lg'' [] None None
          [Element ''l'' [(XML_ID, ''l1'')] (Some ''Foo'') None [],
           Element ''l'' [(XML_ID, ''l2'')] (Some ''Bar'') None []]]"

text \<open>
  The same fragment in the TEI namespace,
  \<^verbatim>\<open><div xmlns="http://www.tei-c.org/ns/1.0">...</div>\<close>.
\<close>

definition scenario_fragment_tei :: element where
  "scenario_fragment_tei =
     Element (tei ''div'') [] None None
       [Element (tei ''pb'') [(''n'', ''1r'')] None None [],
        Element (tei ''lg'') [] None None
          [Element (tei ''l'') [(XML_ID, ''l1'')] (Some ''Foo'') None [],
           Element (tei ''l'') [(XML_ID, ''l2'')] (Some ''Bar'') None []]]"

text \<open>
  \<^verbatim>\<open><TEI><pb n="12"/><div><l>a</l><l>b</l><l>c</l></div></TEI>\<close>, in the TEI namespace:
  the page-break stands before the div, as in the documents that extract\_divs.py writes.
\<close>

definition pb_before_div :: element where
  "pb_before_div =
     Element (tei ''TEI'') [] None None
       [Element (tei ''pb'') [(''n'', ''12'')] None None [],
        Element (tei ''div'') [] None None
          [Element (tei ''l'') [] (Some ''a'') None [],
           Element (tei ''l'') [] (Some ''b'') None [],
           Element (tei ''l'') [] (Some ''c'') None []]]"

text \<open>\<^verbatim>\<open><div><pb n="12"/><l>a</l><l>b</l><l>c</l></div>\<close>, in the TEI namespace.\<close>

definition pb_in_div :: element where
  "pb_in_div =
     Element (tei ''div'') [] None None
       [Element (tei ''pb'') [(''n'', ''12'')] None None [],
        Element (tei ''l'') [] (Some ''a'') None [],
        Element (tei ''l'') [] (Some ''b'') None [],
        Element (tei ''l'') [] (Some ''c'') None []]"

text \<open>\<^verbatim>\<open><div><l>a</l></div>\<close>, in the TEI namespace.\<close>

definition no_pb :: element where
  "no_pb = Element (tei ''div'') [] None None [Element (tei ''l'') [] (Some ''a'') None []]"

text \<open>\<^verbatim>\<open><div><pb/><l>a</l></div>\<close>, in the TEI namespace.\<close>

definition bare_pb :: element where
  "bare_pb =
     Element (tei ''div'') [] None None
       [Element (tei ''pb'') [] None None [],
        Element (tei ''l'') [] (Some ''a'') None []]"

text \<open>
  \<^verbatim>\<open><div><sp who="#a"><speaker> Ann </speaker><l>x</l></sp></div>\<close> and
  \<^verbatim>\<open><div><sp who="#a"><l>x</l></sp></div>\<close>, in the TEI namespace.
\<close>

definition sp_speaker_child :: element where
  "sp_speaker_child =
     Element (tei ''div'') [] None None
       [Element (tei ''sp'') [(''who'', ''#a'')] None None
          [Element (tei ''speaker'') [] (Some '' Ann '') None [],
           Element (tei ''l'') [] (Some ''x'') None []]]"

definition sp_who_only :: element where
  "sp_who_only =
     Element (tei ''div'') [] None None
       [Element (tei ''sp'') [(''who'', ''#a'')] None None
          [Element (tei ''l'') [] (Some ''x'') None []]]"




text \<open>
  \<^verbatim>\<open><TEI><pb n="1r"/><pb/><div xml:id="d1"/></TEI>\<close>, in the TEI namespace, and the
  serialised div \<^verbatim>\<open><div xml:id="d1"/>\<close>.
\<close>

definition two_page_breaks :: element where
  "two_page_breaks =
     Element (tei ''TEI'') [] None None
       [Element (tei ''pb'') [(''n'', ''1r'')] None None [],
        Element (tei ''pb'') [] None None [],
        Element (tei ''div'') [(XML_ID, ''d1'')] None None []]"

definition div_d1_xml :: string where
  "div_d1_xml = ''<div xml:id='' @ [dquote] @ ''d1'' @ [dquote] @ ''/>''"

section \<open>The loop, record by record\<close>

text \<open>
  The loop appends one record for each line element to the records it has; the fields
  of that record other than the group come from the line element alone.
\<close>

lemma lines_loop_append:
  "\<exists>new. lines_loop rend spk dn f c ls lc agm nid acc = acc @ new \<and> length new = length ls"
proof (induction ls arbitrary: lc agm nid acc)
  case Nil
  show ?case by simp
next
  case (Cons l ls)
  obtain n a' nid' where rg: "resolve_group dn agm nid l = (n, a', nid')"
    by (cases "resolve_group dn agm nid l") auto
  from Cons.IH obtain new where
    "lines_loop rend spk dn f c (l # ls) lc agm nid acc = (acc @ [\<lparr>line_no = lc + 1,
               text = rend l,
               lg = (if n > 0 then py_str n else []),
               l_id = or_else (get_attr (snd l) XML_ID) (or_else (get_attr (snd l) ''id'') []),
               folio = resolve_folio dn f l,
               col = resolve_col dn c l,
               speaker = spk dn l\<rparr>]) @ new" "length new = length ls"
    unfolding lines_loop.simps rg by (simp only: prod.case) blast
  then show ?case by simp
qed

lemma lines_loop_length:
  "length (lines_loop rend spk dn f c ls lc agm nid acc) = length acc + length ls"
  using lines_loop_append [of rend spk dn f c ls lc agm nid acc] by auto

lemma lines_loop_old:
  "i < length acc \<Longrightarrow> lines_loop rend spk dn f c ls lc agm nid acc ! i = acc ! i"
  using lines_loop_append [of rend spk dn f c ls lc agm nid acc] by (auto simp: nth_append)

lemma lines_loop_nth:
  "i < length ls \<Longrightarrow> r = lines_loop rend spk dn f c ls lc agm nid acc ! (length acc + i) \<Longrightarrow>
     (line_no r = lc + 1 + int i \<and> text r = rend (ls ! i) \<and>
      l_id r = or_else (get_attr (snd (ls ! i)) XML_ID) (or_else (get_attr (snd (ls ! i)) ''id'') []) \<and>
      folio r = resolve_folio dn f (ls ! i) \<and> col r = resolve_col dn c (ls ! i) \<and>
      speaker r = spk dn (ls ! i))"
proof (induction ls arbitrary: lc agm nid acc i r)
  case Nil
  then show ?case by simp
next
  case (Cons l ls)
  obtain n a' nid' where rg: "resolve_group dn agm nid l = (n, a', nid')"
    by (cases "resolve_group dn agm nid l") auto
  define r0 where "r0 = \<lparr>line_no = lc + 1,
               text = rend l,
               lg = (if n > 0 then py_str n else []),
               l_id = or_else (get_attr (snd l) XML_ID) (or_else (get_attr (snd l) ''id'') []),
               folio = resolve_folio dn f l,
               col = resolve_col dn c l,
               speaker = spk dn l\<rparr>"
  have step: "lines_loop rend spk dn f c (l # ls) lc agm nid acc =
              lines_loop rend spk dn f c ls (lc + 1) a' nid' (acc @ [r0])"
    by (simp add: rg r0_def)
  show ?case
  proof (cases i)
    case 0
    have "lines_loop rend spk dn f c (l # ls) lc agm nid acc ! (length acc + i) = r0"
      unfolding step 0 using lines_loop_old [of "length acc" "acc @ [r0]"] by simp
    with Cons.prems show ?thesis by (simp add: r0_def 0)
  next
    case (Suc j)
    with Cons.prems have j: "j < length ls" by simp
    have "length acc + i = length (acc @ [r0]) + j" by (simp add: Suc)
    with Cons.prems(2) have "r = lines_loop rend spk dn f c ls (lc + 1) a' nid' (acc @ [r0]) ! (length (acc @ [r0]) + j)"
      unfolding step by simp
    from Cons.IH [OF j this] show ?thesis by (simp add: Suc)
  qed
qed

lemma extract_lines_length:
  "length (extract_lines_from_xml root f c) = length (findall_desc ([], root) (tei ''l''))"
  "length (pd_extract_lines_from_xml root f c) = length (findall_desc ([], root) (tei ''l''))"
  by (simp_all add: extract_lines_from_xml_def pd_extract_lines_from_xml_def lines_loop_length)

lemma extract_lines_nth:
  assumes "i < length (findall_desc ([], root) (tei ''l''))"
    and "l = findall_desc ([], root) (tei ''l'') ! i"
    and "r = extract_lines_from_xml root f c ! i"
  shows "line_no r = 1 + int i" "text r = line_text l"
    "folio r = resolve_folio (doc_nodes root) f l" "col r = resolve_col (doc_nodes root) c l"
    "speaker r = resolve_speaker (doc_nodes root) l"
  using lines_loop_nth [OF assms(1), of r line_text resolve_speaker "doc_nodes root" f c 0
      Map.empty 0 "[]"] assms(2,3)
  by (simp_all add: extract_lines_from_xml_def)

lemma pd_extract_lines_nth:
  assumes "i < length (findall_desc ([], root) (tei ''l''))"
    and "l = findall_desc ([], root) (tei ''l'') ! i"
    and "r = pd_extract_lines_from_xml root f c ! i"
  shows "line_no r = 1 + int i" "text r = pd_line_text l"
    "folio r = resolve_folio (doc_nodes root) f l" "col r = resolve_col (doc_nodes root) c l"
    "speaker r = pd_resolve_speaker (doc_nodes root) l"
  using lines_loop_nth [OF assms(1), of r pd_line_text pd_resolve_speaker "doc_nodes root" f c 0
      Map.empty 0 "[]"] assms(2,3)
  by (simp_all add: pd_extract_lines_from_xml_def)

section \<open>C1: the two-line scenario\<close>

text \<open>
  C1 as stated: the fragment as written yields the two records. It yields none: the
  loop runs over \<^verbatim>\<open>root.findall(".//tei:l", ns)\<close>, which selects elements of the TEI
  namespace only.
\<close>

theorem C1_plain_fragment_counterexample:
  "extract_lines_from_xml scenario_fragment_plain '''' '''' \<noteq>
     [\<lparr>line_no = 1, text = ''Foo'', lg = ''1'', l_id = ''l1'', folio = ''1r'', col = '''',
        speaker = ''''\<rparr>,
      \<lparr>line_no = 2, text = ''Bar'', lg = ''1'', l_id = ''l2'', folio = ''1r'', col = '''',
        speaker = ''''\<rparr>]"
proof -
  have "extract_lines_from_xml scenario_fragment_plain '''' '''' = []"
    by code_simp
  then show ?thesis by simp
qed

text \<open>
  C1, amended: on the fragment with its elements in the TEI namespace, seed folio and
  seed column empty, line extraction yields exactly the two records of the scenario.
\<close>

theorem C1_tei_fragment_two_records:
  "extract_lines_from_xml scenario_fragment_tei '''' '''' =
     [\<lparr>line_no = 1, text = ''Foo'', lg = ''1'', l_id = ''l1'', folio = ''1r'', col = '''',
        speaker = ''''\<rparr>,
      \<lparr>line_no = 2, text = ''Bar'', lg = ''1'', l_id = ''l2'', folio = ''1r'', col = '''',
        speaker = ''''\<rparr>]"
  by code_simp

section \<open>C2: one record per line element, numbered from 1\<close>

text \<open>
  C2 as stated: one record for every line element of the fragment. A fragment whose
  root is itself a line element has one line element and yields no record:
  \<^verbatim>\<open>findall(".//tei:l")\<close> selects below the root only.
\<close>

theorem C2_root_line_counterexample:
  "length (extract_lines_from_xml (Element (tei ''l'') [] (Some ''Foo'') None []) '''' '''') \<noteq>
   length (filter (\<lambda>m. tag (snd m) = tei ''l'')
             (iter ([], Element (tei ''l'') [] (Some ''Foo'') None [])))"
proof -
  have "extract_lines_from_xml (Element (tei ''l'') [] (Some ''Foo'') None []) '''' '''' = []"
    by code_simp
  moreover have "length (filter (\<lambda>m. tag (snd m) = tei ''l'')
             (iter ([], Element (tei ''l'') [] (Some ''Foo'') None []))) = 1"
    by code_simp
  ultimately show ?thesis by simp
qed

text \<open>
  C2, amended: in both modules, the records are one for each line element strictly below
  the fragment's root, in document order (the text of the i-th record is that of the
  i-th such element), and their line numbers are 1, 2, ..., N.
\<close>

theorem C2_one_record_per_line_below_root:
  "length (extract_lines_from_xml root f c) =
     length (filter (\<lambda>m. tag (snd m) = tei ''l'') (tl (iter ([], root)))) \<and>
   map line_no (extract_lines_from_xml root f c) =
     map int [1 ..< Suc (length (filter (\<lambda>m. tag (snd m) = tei ''l'') (tl (iter ([], root)))))] \<and>
   map text (extract_lines_from_xml root f c) =
     map line_text (filter (\<lambda>m. tag (snd m) = tei ''l'') (tl (iter ([], root)))) \<and>
   length (pd_extract_lines_from_xml root f c) =
     length (filter (\<lambda>m. tag (snd m) = tei ''l'') (tl (iter ([], root)))) \<and>
   map line_no (pd_extract_lines_from_xml root f c) =
     map int [1 ..< Suc (length (filter (\<lambda>m. tag (snd m) = tei ''l'') (tl (iter ([], root)))))] \<and>
   map text (pd_extract_lines_from_xml root f c) =
     map pd_line_text (filter (\<lambda>m. tag (snd m) = tei ''l'') (tl (iter ([], root))))"
proof -
  let ?ls = "findall_desc ([], root) (tei ''l'')"
  let ?n = "length ?ls"
  have ls: "filter (\<lambda>m. tag (snd m) = tei ''l'') (tl (iter ([], root))) = ?ls"
    by (simp only: findall_desc_def)
  have len: "length (extract_lines_from_xml root f c) = ?n"
    "length (pd_extract_lines_from_xml root f c) = ?n"
    by (rule extract_lines_length)+
  have up: "map int [1 ..< Suc ?n] ! i = 1 + int i" if "i < ?n" for i
    using that by (simp add: nth_upt del: upt_Suc)
  have n1: "map line_no (extract_lines_from_xml root f c) = map int [1 ..< Suc ?n]"
  proof (rule nth_equalityI)
    show "length (map line_no (extract_lines_from_xml root f c)) = length (map int [1 ..< Suc ?n])"
      by (simp add: len del: upt_Suc)
  next
    fix i assume "i < length (map line_no (extract_lines_from_xml root f c))"
    then have i: "i < ?n" by (simp add: len)
    from extract_lines_nth(1) [OF i refl refl, of f c] up [OF i] i
    show "map line_no (extract_lines_from_xml root f c) ! i = map int [1 ..< Suc ?n] ! i"
      by (simp add: len)
  qed
  have t1: "map text (extract_lines_from_xml root f c) = map line_text ?ls"
  proof (rule nth_equalityI)
    show "length (map text (extract_lines_from_xml root f c)) = length (map line_text ?ls)"
      by (simp add: len)
  next
    fix i assume "i < length (map text (extract_lines_from_xml root f c))"
    then have i: "i < ?n" by (simp add: len)
    from extract_lines_nth(2) [OF i refl refl, of f c] i
    show "map text (extract_lines_from_xml root f c) ! i = map line_text ?ls ! i"
      by (simp add: len)
  qed
  have n2: "map line_no (pd_extract_lines_from_xml root f c) = map int [1 ..< Suc ?n]"
  proof (rule nth_equalityI)
    show "length (map line_no (pd_extract_lines_from_xml root f c)) =
          length (map int [1 ..< Suc ?n])"
      by (simp add: len del: upt_Suc)
  next
    fix i assume "i < length (map line_no (pd_extract_lines_from_xml root f c))"
    then have i: "i < ?n" by (simp add: len)
    from pd_extract_lines_nth(1) [OF i refl refl, of f c] up [OF i] i
    show "map line_no (pd_extract_lines_from_xml root f c) ! i = map int [1 ..< Suc ?n] ! i"
      by (simp add: len)
  qed
  have t2: "map text (pd_extract_lines_from_xml root f c) = map pd_line_text ?ls"
  proof (rule nth_equalityI)
    show "length (map text (pd_extract_lines_from_xml root f c)) = length (map pd_line_text ?ls)"
      by (simp add: len)
  next
    fix i assume "i < length (map text (pd_extract_lines_from_xml root f c))"
    then have i: "i < ?n" by (simp add: len)
    from pd_extract_lines_nth(2) [OF i refl refl, of f c] i
    show "map text (pd_extract_lines_from_xml root f c) ! i = map pd_line_text ?ls ! i"
      by (simp add: len)
  qed
  show ?thesis
    unfolding ls using len n1 t1 n2 t2 by (simp only: simp_thms)
qed

section \<open>The backward scans\<close>

lemma find_rev_take_nearest:
  assumes "j < k" "k \<le> length xs" "P (xs ! j)" "\<forall>m. j < m \<and> m < k \<longrightarrow> \<not> P (xs ! m)"
  shows "find P (rev (take k xs)) = Some (xs ! j)"
  using assms
proof (induction k)
  case 0
  then show ?case by simp
next
  case (Suc k)
  then have k: "k < length xs" by simp
  have unfold: "rev (take (Suc k) xs) = xs ! k # rev (take k xs)"
    by (simp add: take_Suc_conv_app_nth [OF k])
  show ?case
  proof (cases "j = k")
    case True
    with Suc.prems show ?thesis by (simp add: unfold)
  next
    case False
    with Suc.prems have "j < k" "\<not> P (xs ! k)" "\<forall>m. j < m \<and> m < k \<longrightarrow> \<not> P (xs ! m)"
      by auto
    with Suc.IH k Suc.prems(3) show ?thesis by (simp add: unfold)
  qed
qed

lemma find_rev_take_none:
  assumes "\<forall>m < k. m < length xs \<longrightarrow> \<not> P (xs ! m)"
  shows "find P (rev (take k xs)) = None"
proof -
  have "\<not> P x" if "x \<in> set (take k xs)" for x
  proof -
    from that obtain m where "m < length (take k xs)" "take k xs ! m = x"
      by (auto simp: in_set_conv_nth)
    with assms show ?thesis by auto
  qed
  then show ?thesis by (auto simp: find_None_iff)
qed

lemma index_of_Some:
  "index_of dn l = Some k \<Longrightarrow> k < length dn \<and> fst (dn ! k) = fst l"
  by (induction dn arbitrary: k) (auto split: if_splits)

lemma marker_value_nonempty:
  "marker_value p [] = v \<Longrightarrow> v \<noteq> [] \<Longrightarrow> marker_value p d = v"
  by (auto simp: marker_value_def or_else_def split: option.splits if_splits)

lemma marker_value_absent:
  "get_attr (snd p) ''n'' = None \<Longrightarrow> get_attr (snd p) XML_ID = None \<Longrightarrow> marker_value p d = d"
  by (simp add: marker_value_def or_else_def)

lemma iter_at_sub:
  "m \<in> set (iter_at p e) \<Longrightarrow> set (iter_at (fst m) (snd m)) \<subseteq> set (iter_at p e)"
  "m \<in> set (iter_children p i cs) \<Longrightarrow> set (iter_at (fst m) (snd m)) \<subseteq> set (iter_children p i cs)"
  by (induction p e and p i cs rule: iter_at_iter_children.induct) auto

lemma doc_nodes_sub: "set (doc_nodes root) \<subseteq> set (iter ([], root))"
proof (cases "find_desc ([], root) (tei ''div'')")
  case None
  then show ?thesis by (simp add: doc_nodes_def)
next
  case (Some d)
  then have "d \<in> set (findall_desc ([], root) (tei ''div''))"
    by (auto simp: find_desc_def split: list.splits)
  then have "d \<in> set (tl (iter ([], root)))"
    by (simp add: findall_desc_def)
  then have "d \<in> set (iter_at [] root)"
    by (cases "iter_at [] root") (auto simp: iter_def)
  from iter_at_sub(1) [OF this] Some show ?thesis
    by (simp add: doc_nodes_def iter_def)
qed

lemma resolve_folio_nearest:
  assumes "index_of dn l = Some k" "j < k" "is_pb (dn ! j)"
    "\<forall>m. j < m \<and> m < k \<longrightarrow> \<not> is_pb (dn ! m)"
  shows "resolve_folio dn seed l = marker_value (dn ! j) seed"
proof -
  from index_of_Some [OF assms(1)] have "k \<le> length dn" by simp
  from find_rev_take_nearest [OF assms(2) this, of is_pb] assms(3,4)
  show ?thesis by (simp add: resolve_folio_def assms(1))
qed

lemma resolve_folio_no_pb:
  assumes "\<forall>n \<in> set dn. \<not> is_pb n"
  shows "resolve_folio dn seed l = seed"
proof (cases "index_of dn l")
  case None
  then show ?thesis by (simp add: resolve_folio_def)
next
  case (Some k)
  have "find is_pb (rev (take k dn)) = None"
    using assms by (intro find_rev_take_none) auto
  with Some show ?thesis by (simp add: resolve_folio_def)
qed

lemma resolve_speaker_nearest:
  assumes "index_of dn l = Some k" "j < k" "is_sp (dn ! j)"
    "\<forall>m. j < m \<and> m < k \<longrightarrow> \<not> is_sp (dn ! m)"
  shows "resolve_speaker dn l = who_of (dn ! j)"
    and "pd_resolve_speaker dn l =
      (case find_child (dn ! j) (tei ''speaker'') of None \<Rightarrow> []
       | Some speaker_elem \<Rightarrow> strip (itertext (snd speaker_elem)))"
proof -
  from index_of_Some [OF assms(1)] have "k \<le> length dn" by simp
  from find_rev_take_nearest [OF assms(2) this, of is_sp] assms(3,4)
  have f: "find is_sp (rev (take k dn)) = Some (dn ! j)" by simp
  show "resolve_speaker dn l = who_of (dn ! j)"
    by (simp add: resolve_speaker_def assms(1) f)
  show "pd_resolve_speaker dn l =
      (case find_child (dn ! j) (tei ''speaker'') of None \<Rightarrow> []
       | Some speaker_elem \<Rightarrow> strip (itertext (snd speaker_elem)))"
    by (simp add: pd_resolve_speaker_def assms(1) f)
qed

lemma resolve_speaker_none:
  assumes "index_of dn l = None \<or> (\<exists>k. index_of dn l = Some k \<and> (\<forall>m < k. \<not> is_sp (dn ! m)))"
  shows "resolve_speaker dn l = []" and "pd_resolve_speaker dn l = []"
proof -
  have "find is_sp (rev (take k dn)) = None" if "\<forall>m < k. \<not> is_sp (dn ! m)" for k
    using that by (intro find_rev_take_none) auto
  with assms show "resolve_speaker dn l = []" and "pd_resolve_speaker dn l = []"
    by (auto simp: resolve_speaker_def pd_resolve_speaker_def)
qed

section \<open>C3: folio resolution\<close>

text \<open>
  C3 as stated: whenever the fragment contains a page-break of effective value 12
  followed by lines and no further page-break, those lines have folio 12 for every seed.
  With the page-break before the div the scans never see it (they run over the nodes of
  the first div only) and the lines get the seed.
\<close>

theorem C3_pb_before_div_counterexample:
  "map folio (extract_lines_from_xml pb_before_div ''5'' '''') = [''5'', ''5'', ''5''] \<and>
   map folio (extract_lines_from_xml pb_before_div ''5'' '''') \<noteq> [''12'', ''12'', ''12'']"
proof -
  have "map folio (extract_lines_from_xml pb_before_div ''5'' '''') = [''5'', ''5'', ''5'']"
    by code_simp
  then show ?thesis by simp
qed

text \<open>
  C3, amended: let the scanned nodes be those of the first div below the root, or of the
  whole fragment when there is none. If a page-break among the scanned nodes has effective
  value 12 and a line element comes after it among the scanned nodes with no page-break in
  between, the line's folio is 12 for every seed folio; and if the fragment contains no
  page-break at all, every line's folio is the seed folio.
\<close>

theorem C3_folio_of_nearest_page_break:
  fixes root :: element and seed c :: string and i j k :: nat
  defines "dn \<equiv> doc_nodes root"
    and "ls \<equiv> findall_desc ([], root) (tei ''l'')"
    and "recs \<equiv> extract_lines_from_xml root seed c"
  shows
  "(i < length ls \<and> index_of dn (ls ! i) = Some k \<and> j < k \<and> is_pb (dn ! j) \<and>
    marker_value (dn ! j) [] = ''12'' \<and> (\<forall>m. j < m \<and> m < k \<longrightarrow> \<not> is_pb (dn ! m))
      \<longrightarrow> folio (recs ! i) = ''12'') \<and>
   (i < length ls \<and> (\<forall>n \<in> set (iter ([], root)). \<not> is_pb n)
      \<longrightarrow> folio (recs ! i) = seed)"
proof (intro conjI impI)
  assume a: "i < length ls \<and> index_of dn (ls ! i) = Some k \<and> j < k \<and> is_pb (dn ! j) \<and>
    marker_value (dn ! j) [] = ''12'' \<and> (\<forall>m. j < m \<and> m < k \<longrightarrow> \<not> is_pb (dn ! m))"
  then have i: "i < length (findall_desc ([], root) (tei ''l''))"
    unfolding ls_def by blast
  have "folio (recs ! i) = resolve_folio dn seed (ls ! i)"
    unfolding recs_def dn_def ls_def by (rule extract_lines_nth(3) [OF i refl refl])
  also have "\<dots> = marker_value (dn ! j) seed"
  proof (rule resolve_folio_nearest)
    show "index_of dn (ls ! i) = Some k" "j < k" "is_pb (dn ! j)"
      "\<forall>m. j < m \<and> m < k \<longrightarrow> \<not> is_pb (dn ! m)"
      using a by blast+
  qed
  also have "\<dots> = ''12''"
  proof (rule marker_value_nonempty)
    show "marker_value (dn ! j) [] = ''12''" using a by blast
    show "''12'' \<noteq> []" by simp
  qed
  finally show "folio (recs ! i) = ''12''" .
next
  assume a: "i < length ls \<and> (\<forall>n \<in> set (iter ([], root)). \<not> is_pb n)"
  then have i: "i < length (findall_desc ([], root) (tei ''l''))"
    unfolding ls_def by blast
  have "folio (recs ! i) = resolve_folio dn seed (ls ! i)"
    unfolding recs_def dn_def ls_def by (rule extract_lines_nth(3) [OF i refl refl])
  also have "\<dots> = seed"
  proof (rule resolve_folio_no_pb)
    from a have "\<forall>n \<in> set (iter ([], root)). \<not> is_pb n" by blast
    with doc_nodes_sub [of root] show "\<forall>n \<in> set dn. \<not> is_pb n"
      unfolding dn_def by blast
  qed
  finally show "folio (recs ! i) = seed" .
qed

theorem C3_folio_of_nearest_page_break_witness:
  "folio (extract_lines_from_xml pb_in_div ''5'' '''' ! 2) = ''12'' \<and>
   folio (extract_lines_from_xml no_pb ''5'' '''' ! 0) = ''5''"
proof -
  have dn: "doc_nodes pb_in_div ! 1 = ([0], Element (tei ''pb'') [(''n'', ''12'')] None None [])"
    "doc_nodes pb_in_div ! 2 = ([1], Element (tei ''l'') [] (Some ''a'') None [])"
    "doc_nodes pb_in_div ! 3 = ([2], Element (tei ''l'') [] (Some ''b'') None [])"
    by code_simp+
  have h1: "2 < length (findall_desc ([], pb_in_div) (tei ''l''))"
    by code_simp
  have h2: "index_of (doc_nodes pb_in_div) (findall_desc ([], pb_in_div) (tei ''l'') ! 2) = Some 4"
    by code_simp
  have h3: "is_pb (doc_nodes pb_in_div ! 1)" "marker_value (doc_nodes pb_in_div ! 1) [] = ''12''"
    by code_simp+
  have n23: "\<not> is_pb (doc_nodes pb_in_div ! 2)" "\<not> is_pb (doc_nodes pb_in_div ! 3)"
    by code_simp+
  have h4: "\<forall>m. 1 < m \<and> m < 4 \<longrightarrow> \<not> is_pb (doc_nodes pb_in_div ! m)"
  proof (intro allI impI)
    fix m :: nat assume "1 < m \<and> m < 4"
    then have "m = 2 \<or> m = 3" by arith
    with n23 show "\<not> is_pb (doc_nodes pb_in_div ! m)" by auto
  qed
  have g1: "0 < length (findall_desc ([], no_pb) (tei ''l''))"
    by code_simp
  have g2: "\<forall>n \<in> set (iter ([], no_pb)). \<not> is_pb n"
    by code_simp
  from C3_folio_of_nearest_page_break [where root = pb_in_div and i = 2 and k = 4 and j = 1
      and seed = "''5''" and c = "''''"] h1 h2 h3 h4
  have "folio (extract_lines_from_xml pb_in_div ''5'' '''' ! 2) = ''12''"
    by simp
  moreover from C3_folio_of_nearest_page_break [where root = no_pb and i = 0 and seed = "''5''"
      and c = "''''"] g1 g2
  have "folio (extract_lines_from_xml no_pb ''5'' '''' ! 0) = ''5''"
    by simp
  ultimately show ?thesis by simp
qed

section \<open>C4: a page-break without n and without identifier\<close>

text \<open>
  C4 as stated: after a page-break that carries neither attribute the folio is empty,
  whatever the seed. The code falls back to the seed folio:
  \<^verbatim>\<open>prev.get('n') or prev.get(xml_ns) or initial_folio\<close>.
\<close>

theorem C4_bare_pb_counterexample:
  "folio (extract_lines_from_xml bare_pb ''5'' '''' ! 0) = ''5'' \<and>
   folio (extract_lines_from_xml bare_pb ''5'' '''' ! 0) \<noteq> ''''"
proof -
  have "folio (extract_lines_from_xml bare_pb ''5'' '''' ! 0) = ''5''"
    by code_simp
  then show ?thesis by simp
qed

text \<open>
  C4, amended: in both modules, for every line whose nearest preceding page-break among
  the scanned nodes carries neither an n attribute nor an identifier attribute, the
  line's folio is the seed folio supplied by the caller.
\<close>

theorem C4_bare_page_break_gives_seed:
  fixes root :: element and seed c :: string and i j k :: nat
  defines "dn \<equiv> doc_nodes root"
    and "ls \<equiv> findall_desc ([], root) (tei ''l'')"
  shows
  "i < length ls \<and> index_of dn (ls ! i) = Some k \<and> j < k \<and> is_pb (dn ! j) \<and>
   get_attr (snd (dn ! j)) ''n'' = None \<and> get_attr (snd (dn ! j)) XML_ID = None \<and>
   (\<forall>m. j < m \<and> m < k \<longrightarrow> \<not> is_pb (dn ! m))
     \<longrightarrow> folio (extract_lines_from_xml root seed c ! i) = seed \<and>
         folio (pd_extract_lines_from_xml root seed c ! i) = seed"
proof (intro impI)
  assume a: "i < length ls \<and> index_of dn (ls ! i) = Some k \<and> j < k \<and> is_pb (dn ! j) \<and>
   get_attr (snd (dn ! j)) ''n'' = None \<and> get_attr (snd (dn ! j)) XML_ID = None \<and>
   (\<forall>m. j < m \<and> m < k \<longrightarrow> \<not> is_pb (dn ! m))"
  then have i: "i < length (findall_desc ([], root) (tei ''l''))"
    unfolding ls_def by blast
  have "resolve_folio dn seed (ls ! i) = marker_value (dn ! j) seed"
  proof (rule resolve_folio_nearest)
    show "index_of dn (ls ! i) = Some k" "j < k" "is_pb (dn ! j)"
      "\<forall>m. j < m \<and> m < k \<longrightarrow> \<not> is_pb (dn ! m)"
      using a by blast+
  qed
  also have "\<dots> = seed"
  proof (rule marker_value_absent)
    show "get_attr (snd (dn ! j)) ''n'' = None" "get_attr (snd (dn ! j)) XML_ID = None"
      using a by blast+
  qed
  finally have r: "resolve_folio dn seed (ls ! i) = seed" .
  have "folio (extract_lines_from_xml root seed c ! i) = resolve_folio dn seed (ls ! i)"
    unfolding dn_def ls_def by (rule extract_lines_nth(3) [OF i refl refl])
  moreover
  have "folio (pd_extract_lines_from_xml root seed c ! i) = resolve_folio dn seed (ls ! i)"
    unfolding dn_def ls_def by (rule pd_extract_lines_nth(3) [OF i refl refl])
  ultimately show "folio (extract_lines_from_xml root seed c ! i) = seed \<and>
         folio (pd_extract_lines_from_xml root seed c ! i) = seed"
    using r by simp
qed

theorem C4_bare_page_break_gives_seed_witness:
  "folio (extract_lines_from_xml bare_pb ''7v'' '''' ! 0) = ''7v'' \<and>
   folio (pd_extract_lines_from_xml bare_pb ''7v'' '''' ! 0) = ''7v''"
proof -
  have h1: "0 < length (findall_desc ([], bare_pb) (tei ''l''))"
    by code_simp
  have h2: "index_of (doc_nodes bare_pb) (findall_desc ([], bare_pb) (tei ''l'') ! 0) = Some 2"
    by code_simp
  have h3: "is_pb (doc_nodes bare_pb ! 1)"
    "get_attr (snd (doc_nodes bare_pb ! 1)) ''n'' = None"
    "get_attr (snd (doc_nodes bare_pb ! 1)) XML_ID = None"
    by code_simp+
  have h4: "\<forall>m. 1 < m \<and> m < 2 \<longrightarrow> \<not> is_pb (doc_nodes bare_pb ! m)"
    by auto
  from C4_bare_page_break_gives_seed [where root = bare_pb and i = 0 and k = 2 and j = 1
      and seed = "''7v''" and c = "''''"] h1 h2 h3 h4
  show ?thesis by simp
qed

section \<open>Group numbers\<close>








section \<open>C5: group identifiers in first-discovery order\<close>



section \<open>C6: the renderer on gap and expansion elements\<close>

text \<open>
  C6 as stated: a gap element renders as exactly the placeholder. It does not when the
  element has a tail: the tail is appended.
\<close>

theorem C6_gap_tail_counterexample:
  "get_text_with_markup (Element (tei ''gap'') [] None (Some ''x'') []) \<noteq> '' [...]''"
  by (simp add: tei_def TEI_NS_def ns_tag_def or_empty_def)

text \<open>
  C6, amended: a gap element renders as the placeholder followed by the element's tail,
  whatever its text and children; an expansion element with text abc and no children
  renders as that text between the emphasis markers, followed by the element's tail.
\<close>

theorem C6_render_gap_and_ex:
  "(ns_tag (tag e) = ''gap'' \<longrightarrow>
      get_text_with_markup e = '' [...]'' @ or_empty (node_tail e)) \<and>
   (ns_tag (tag e) = ''ex'' \<and> node_text e = Some ''abc'' \<and> children e = [] \<longrightarrow>
      get_text_with_markup e = ''<em>abc</em>'' @ or_empty (node_tail e))"
  by (cases e) (simp add: or_empty_def)

theorem C6_render_gap_and_ex_witness:
  "get_text_with_markup
     (Element (tei ''gap'') [(''reason'', ''lost'')] (Some ''zz'') None
        [Element (tei ''ex'') [] (Some ''q'') None []]) = '' [...]'' \<and>
   get_text_with_markup (Element (tei ''ex'') [] (Some ''abc'') (Some '' de'') []) =
     ''<em>abc</em> de''"
proof -
  have g: "ns_tag (tei ''gap'') = ''gap''" and x: "ns_tag (tei ''ex'') = ''ex''"
    by (simp_all add: tei_def TEI_NS_def ns_tag_def)
  show ?thesis
    using C6_render_gap_and_ex
            [of "Element (tei ''gap'') [(''reason'', ''lost'')] (Some ''zz'') None
                   [Element (tei ''ex'') [] (Some ''q'') None []]"]
          C6_render_gap_and_ex [of "Element (tei ''ex'') [] (Some ''abc'') (Some '' de'') []"]
          g x
    by (simp add: or_empty_def)
qed

section \<open>C7: the speaker of a line\<close>

text \<open>
  C7 as stated: the speaker is the \<^verbatim>\<open>who\<close> attribute of the nearest preceding speech
  element, without its sigil. In process\_div.py it is not: there the speaker is the text
  of the speech element's \<^verbatim>\<open>speaker\<close> child, and the attribute is never read.
\<close>

theorem C7_process_div_speaker_counterexample:
  "map speaker (pd_extract_lines_from_xml sp_who_only '''' '''') = [''''] \<and>
   map speaker (pd_extract_lines_from_xml sp_who_only '''' '''') \<noteq> [''a'']"
proof -
  have "map speaker (pd_extract_lines_from_xml sp_who_only '''' '''') = ['''']"
    by code_simp
  then show ?thesis by simp
qed

text \<open>
  C7, amended: in helpers.py the speaker of a line is resolved by the backward scan of
  the scanned nodes from the line for the first speech element: the value of its
  \<^verbatim>\<open>who\<close> attribute without one leading sigil, the empty string when it has no such
  attribute, and the empty string when no speech element precedes the line or the line
  is not among the scanned nodes. In process\_div.py the scan is the same, and the speaker
  is the whitespace-stripped text of the speech element's first \<^verbatim>\<open>speaker\<close> child,
  the empty string when it has none.
\<close>

theorem C7_speaker_of_nearest_speech:
  fixes root :: element and f c :: string and i j k :: nat
  defines "dn \<equiv> doc_nodes root"
    and "ls \<equiv> findall_desc ([], root) (tei ''l'')"
  shows
  "(i < length ls \<and> index_of dn (ls ! i) = Some k \<and> j < k \<and> is_sp (dn ! j) \<and>
    (\<forall>m. j < m \<and> m < k \<longrightarrow> \<not> is_sp (dn ! m))
      \<longrightarrow> speaker (extract_lines_from_xml root f c ! i) =
            (case get_attr (snd (dn ! j)) ''who'' of
               None \<Rightarrow> []
             | Some w \<Rightarrow> if w \<noteq> [] \<and> hd w = CHR ''#'' then tl w else w) \<and>
          speaker (pd_extract_lines_from_xml root f c ! i) =
            (case find_child (dn ! j) (tei ''speaker'') of
               None \<Rightarrow> []
             | Some speaker_elem \<Rightarrow> strip (itertext (snd speaker_elem)))) \<and>
   (i < length ls \<and>
    (index_of dn (ls ! i) = None \<or>
     (index_of dn (ls ! i) = Some k \<and> (\<forall>m < k. \<not> is_sp (dn ! m))))
      \<longrightarrow> speaker (extract_lines_from_xml root f c ! i) = [] \<and>
          speaker (pd_extract_lines_from_xml root f c ! i) = [])"
proof -
  have who: "who_of p = (case get_attr (snd p) ''who'' of None \<Rightarrow> []
             | Some w \<Rightarrow> if w \<noteq> [] \<and> hd w = CHR ''#'' then tl w else w)" for p
  proof (cases "get_attr (snd p) ''who''")
    case None
    then show ?thesis by (simp add: who_of_def)
  next
    case (Some w)
    then show ?thesis by (cases w) (simp_all add: who_of_def)
  qed
  have sp1: "speaker (extract_lines_from_xml root f c ! i) = resolve_speaker dn (ls ! i)"
    and sp2: "speaker (pd_extract_lines_from_xml root f c ! i) = pd_resolve_speaker dn (ls ! i)"
    if "i < length ls"
  proof -
    from that have i: "i < length (findall_desc ([], root) (tei ''l''))"
      by (simp add: ls_def)
    show "speaker (extract_lines_from_xml root f c ! i) = resolve_speaker dn (ls ! i)"
      unfolding dn_def ls_def by (rule extract_lines_nth(5) [OF i refl refl])
    show "speaker (pd_extract_lines_from_xml root f c ! i) = pd_resolve_speaker dn (ls ! i)"
      unfolding dn_def ls_def by (rule pd_extract_lines_nth(5) [OF i refl refl])
  qed
  show ?thesis
  proof (intro conjI impI)
    assume a: "i < length ls \<and> index_of dn (ls ! i) = Some k \<and> j < k \<and> is_sp (dn ! j) \<and>
      (\<forall>m. j < m \<and> m < k \<longrightarrow> \<not> is_sp (dn ! m))"
    have pre: "index_of dn (ls ! i) = Some k" "j < k" "is_sp (dn ! j)"
      "\<forall>m. j < m \<and> m < k \<longrightarrow> \<not> is_sp (dn ! m)" "i < length ls"
      using a by blast+
    have "resolve_speaker dn (ls ! i) = who_of (dn ! j)"
      by (rule resolve_speaker_nearest(1) [OF pre(1-4)])
    with pre(5) show "speaker (extract_lines_from_xml root f c ! i) =
            (case get_attr (snd (dn ! j)) ''who'' of
               None \<Rightarrow> []
             | Some w \<Rightarrow> if w \<noteq> [] \<and> hd w = CHR ''#'' then tl w else w)"
      by (simp add: sp1 [OF pre(5)] who)
    have "pd_resolve_speaker dn (ls ! i) =
            (case find_child (dn ! j) (tei ''speaker'') of
               None \<Rightarrow> []
             | Some speaker_elem \<Rightarrow> strip (itertext (snd speaker_elem)))"
      by (rule resolve_speaker_nearest(2) [OF pre(1-4)])
    with pre(5) show "speaker (pd_extract_lines_from_xml root f c ! i) =
            (case find_child (dn ! j) (tei ''speaker'') of
               None \<Rightarrow> []
             | Some speaker_elem \<Rightarrow> strip (itertext (snd speaker_elem)))"
      by (simp add: sp2 [OF pre(5)])
  next
    assume a: "i < length ls \<and>
      (index_of dn (ls ! i) = None \<or>
       (index_of dn (ls ! i) = Some k \<and> (\<forall>m < k. \<not> is_sp (dn ! m))))"
    then have b: "index_of dn (ls ! i) = None \<or>
      (\<exists>k. index_of dn (ls ! i) = Some k \<and> (\<forall>m < k. \<not> is_sp (dn ! m)))"
      by blast
    from a have i: "i < length ls" by blast
    from resolve_speaker_none(1) [OF b]
    show "speaker (extract_lines_from_xml root f c ! i) = []"
      by (simp add: sp1 [OF i])
    from resolve_speaker_none(2) [OF b]
    show "speaker (pd_extract_lines_from_xml root f c ! i) = []"
      by (simp add: sp2 [OF i])
  qed
qed

theorem C7_speaker_of_nearest_speech_witness:
  "speaker (extract_lines_from_xml sp_speaker_child '''' '''' ! 0) = ''a'' \<and>
   speaker (pd_extract_lines_from_xml sp_speaker_child '''' '''' ! 0) = ''Ann'' \<and>
   speaker (extract_lines_from_xml no_pb '''' '''' ! 0) = '''' \<and>
   speaker (pd_extract_lines_from_xml no_pb '''' '''' ! 0) = ''''"
proof -
  have h1: "0 < length (findall_desc ([], sp_speaker_child) (tei ''l''))"
    by code_simp
  have h2: "index_of (doc_nodes sp_speaker_child)
              (findall_desc ([], sp_speaker_child) (tei ''l'') ! 0) = Some 3"
    by code_simp
  have h3: "is_sp (doc_nodes sp_speaker_child ! 1)"
    by code_simp
  have n2: "\<not> is_sp (doc_nodes sp_speaker_child ! 2)"
    by code_simp
  have h4: "\<forall>m. 1 < m \<and> m < 3 \<longrightarrow> \<not> is_sp (doc_nodes sp_speaker_child ! m)"
  proof (intro allI impI)
    fix m :: nat assume "1 < m \<and> m < 3"
    then have "m = 2" by arith
    with n2 show "\<not> is_sp (doc_nodes sp_speaker_child ! m)" by simp
  qed
  have v1: "(case get_attr (snd (doc_nodes sp_speaker_child ! 1)) ''who'' of
               None \<Rightarrow> []
             | Some w \<Rightarrow> if w \<noteq> [] \<and> hd w = CHR ''#'' then tl w else w) = ''a''"
    by code_simp
  have v2: "(case find_child (doc_nodes sp_speaker_child ! 1) (tei ''speaker'') of
               None \<Rightarrow> []
             | Some speaker_elem \<Rightarrow> strip (itertext (snd speaker_elem))) = ''Ann''"
    by code_simp
  have g1: "0 < length (findall_desc ([], no_pb) (tei ''l''))"
    by code_simp
  have g2: "index_of (doc_nodes no_pb) (findall_desc ([], no_pb) (tei ''l'') ! 0) = Some 1"
    by code_simp
  have n0: "\<not> is_sp (doc_nodes no_pb ! 0)"
    by code_simp
  have g3: "\<forall>m < 1. \<not> is_sp (doc_nodes no_pb ! m)"
    using n0 by simp
  from C7_speaker_of_nearest_speech [where root = sp_speaker_child and i = 0 and k = 3 and j = 1
      and f = "''''" and c = "''''"] h1 h2 h3 h4 v1 v2
  have "speaker (extract_lines_from_xml sp_speaker_child '''' '''' ! 0) = ''a'' \<and>
        speaker (pd_extract_lines_from_xml sp_speaker_child '''' '''' ! 0) = ''Ann''"
    by simp
  moreover
  from C7_speaker_of_nearest_speech [where root = no_pb and i = 0 and k = 1
      and f = "''''" and c = "''''"] g1 g2 g3
  have "speaker (extract_lines_from_xml no_pb '''' '''' ! 0) = '''' \<and>
        speaker (pd_extract_lines_from_xml no_pb '''' '''' ! 0) = ''''"
    by simp
  ultimately show ?thesis by simp
qed

section \<open>Facts about the loading loop\<close>







section \<open>C8: the sort key of a folio range\<close>

text \<open>
  C8: the key is the value of the first integer substring of the field. The function's
  docstring says the same (the first number found, a large number if none is found), but
  \<^verbatim>\<open>re.match\<close> only matches at the start of the string: a folio range that has a number
  after other characters gets the fallback key 999999 of a field with no number. Fields
  that begin with their number, as in the scenario, get its value.
\<close>

theorem C8_sort_key_of_leading_digits_only:
  "simple_folio_sort_key ''f. 12-15'' = 999999 \<and>
   simple_folio_sort_key ''12-15'' = 12 \<and>
   simple_folio_sort_key ''3'' = 3"
  by code_simp

section \<open>C9: rows without identifier, and a table without identifier column\<close>



section \<open>What the joint scan computes\<close>

text \<open>
  For each kind of marker the joint scan returns the value of the first marker of that
  kind whose value is not empty.
\<close>

lemma scan_back_independent:
  "scan_back prevs cur_folio cur_col =
     (if cur_folio \<noteq> [] then cur_folio
      else independent_scan (\<lambda>m. is_tei_pb m \<and> marker_value m [] \<noteq> []) prevs,
      if cur_col \<noteq> [] then cur_col
      else independent_scan (\<lambda>m. is_tei_col m \<and> marker_value m [] \<noteq> []) prevs)"
proof (induction prevs arbitrary: cur_folio cur_col)
  case Nil
  show ?case by (simp add: independent_scan_def)
next
  case (Cons p rest)
  show ?case
    by (simp add: Cons.IH Let_def independent_scan_def is_tei_pb_def is_tei_col_def)
qed

section \<open>C10: the joint scan and the two independent scans\<close>

text \<open>
  C10: for every source document and target section, the joint backward scan returns the
  same (folio, column) pair as two independent backward scans, each stopping at its own
  first match: the first page-break, respectively the first column-break or column
  milestone, that it meets. The docstring of the function says the same (the nearest
  preceding page-break and column marker). The code does not do it: the loop takes an
  empty \<^verbatim>\<open>folio\<close> or \<^verbatim>\<open>col\<close> for not found yet, so a marker with neither
  \<^verbatim>\<open>n\<close> nor identifier does not end the search for its kind, and the value comes
  from an earlier marker. On the document below the nearest page-break before the div is
  the one without attributes: the joint scan returns the folio 1r of the page-break before
  it, the independent scan stops at the nearest one and returns the empty folio, and
  \<^verbatim>\<open>get_preceding_pb_element\<close> returns that nearest page-break too.
\<close>

theorem C10_joint_scan_passes_over_valueless_page_break:
  "get_folio_and_col_at_div div_d1_xml two_page_breaks = (''1r'', '''') \<and>
   (case nodes_before_div div_d1_xml two_page_breaks of
      None \<Rightarrow> ([], [])
    | Some prevs \<Rightarrow> (independent_scan is_tei_pb prevs, independent_scan is_tei_col prevs))
     = ('''', '''') \<and>
   get_preceding_pb_element div_d1_xml two_page_breaks =
     Some ([1], Element (tei ''pb'') [] None None [])"
proof -
  have a: "get_folio_and_col_at_div div_d1_xml two_page_breaks = (''1r'', '''')"
    by code_simp
  have b: "(case nodes_before_div div_d1_xml two_page_breaks of
      None \<Rightarrow> ([], [])
    | Some prevs \<Rightarrow> (independent_scan is_tei_pb prevs, independent_scan is_tei_col prevs))
     = ('''', '''')"
    by code_simp
  have c: "get_preceding_pb_element div_d1_xml two_page_breaks =
     Some ([1], Element (tei ''pb'') [] None None [])"
    by code_simp
  show ?thesis unfolding a b c by simp
qed

end
